theory Spec2Isabelle
  imports Complex_Main "HOL-Library.Word"
begin

section \<open>Images as the imaging library holds them\<close>

text \<open>
  \<^verbatim>\<open>scripts/convert_icon.py\<close> delegates every pixel operation to Pillow. An image is a
  mode, a size and one list of band values per pixel (four bands for mode \<^verbatim>\<open>RGBA\<close>, one
  for mode \<^verbatim>\<open>L\<close>). Band values are unsigned bytes.
\<close>

type_synonym byte = "8 word"

datatype mode = Mode_RGBA | Mode_L

record image =
  mode :: mode
  width :: nat
  height :: nat
  px :: "nat \<Rightarrow> nat \<Rightarrow> byte list"

text \<open>Reading band \<open>k\<close> of a pixel; a band the pixel does not have reads as 0.\<close>

definition band :: "byte list \<Rightarrow> nat \<Rightarrow> byte" where
  "band p k = (if k < length p then p ! k else 0)"

text \<open>What a file holds: the PNG encoding of an image (lossless), or any other bytes.\<close>

datatype fdata = PngData image | Bytes "byte list"

text \<open>
  The computations of Pillow that the script only calls are parameters of the model:
  decoding a file and converting it to RGBA (\<^verbatim>\<open>Image.open(p).convert('RGBA')\<close>, \<open>None\<close>
  when it raises), the image that \<^verbatim>\<open>thumbnail\<close> leaves behind (Lanczos filter), the
  per-pixel blend of \<^verbatim>\<open>paste\<close> under a mask value, the pixel data of a Lanczos
  \<^verbatim>\<open>resize\<close>, and the set of pixels that \<^verbatim>\<open>ImageDraw.rounded_rectangle\<close> fills.
\<close>

record pillow =
  pil_decode_rgba :: "fdata \<Rightarrow> image option"
  pil_thumbnail :: "image \<Rightarrow> nat \<times> nat \<Rightarrow> image"
  pil_blend :: "byte list \<Rightarrow> byte list \<Rightarrow> byte \<Rightarrow> byte list"
  pil_lanczos :: "image \<Rightarrow> nat \<times> nat \<Rightarrow> nat \<Rightarrow> nat \<Rightarrow> byte list"
  pil_rounded_rect :: "int \<times> int \<times> int \<times> int \<Rightarrow> int \<Rightarrow> nat \<Rightarrow> nat \<Rightarrow> bool"

subsection \<open>The value an image takes under each operation\<close>

definition blank :: "mode \<Rightarrow> nat \<times> nat \<Rightarrow> byte list \<Rightarrow> image" where
  "blank m sz color = \<lparr>mode = m, width = fst sz, height = snd sz, px = (\<lambda>x y. color)\<rparr>"

text \<open>The mask value \<^verbatim>\<open>paste\<close> reads: the alpha band of an RGBA mask, the only band of an L mask.\<close>

definition mask_value :: "image \<Rightarrow> nat \<Rightarrow> nat \<Rightarrow> byte" where
  "mask_value m x y = (case mode m of Mode_RGBA \<Rightarrow> band (px m x y) 3 | Mode_L \<Rightarrow> band (px m x y) 0)"

text \<open>
  \<^verbatim>\<open>dst.paste(im, (x, y), mask)\<close>: the box is \<open>(x, y, x + im.width, y + im.height)\<close>; inside
  it every destination pixel is blended with the source pixel under the mask value, outside
  it nothing changes.
\<close>

definition in_box :: "int \<times> int \<Rightarrow> image \<Rightarrow> nat \<Rightarrow> nat \<Rightarrow> bool" where
  "in_box xy im i j =
     (fst xy \<le> int i \<and> int i < fst xy + int (width im) \<and>
      snd xy \<le> int j \<and> int j < snd xy + int (height im))"

definition pasted :: "pillow \<Rightarrow> image \<Rightarrow> image \<Rightarrow> int \<times> int \<Rightarrow> image \<Rightarrow> image" where
  "pasted P dst im xy msk =
     dst\<lparr>px := (\<lambda>i j.
        if in_box xy im i j then
          pil_blend P (px dst i j)
            (px im (nat (int i - fst xy)) (nat (int j - snd xy)))
            (mask_value msk (nat (int i - fst xy)) (nat (int j - snd xy)))
        else px dst i j)\<rparr>"

text \<open>\<^verbatim>\<open>im.resize((w, h), LANCZOS)\<close>: an image of the requested size, in the mode of \<open>im\<close>.\<close>

definition resized :: "pillow \<Rightarrow> image \<Rightarrow> nat \<times> nat \<Rightarrow> image" where
  "resized P im sz = \<lparr>mode = mode im, width = fst sz, height = snd sz, px = pil_lanczos P im sz\<rparr>"

text \<open>\<^verbatim>\<open>draw.rounded_rectangle(box, radius=r, fill=v)\<close> on an L image: the filled pixels take \<open>v\<close>.\<close>

definition drawn_rounded :: "pillow \<Rightarrow> image \<Rightarrow> int \<times> int \<times> int \<times> int \<Rightarrow> int \<Rightarrow> byte \<Rightarrow> image" where
  "drawn_rounded P m box r v =
     m\<lparr>px := (\<lambda>x y. if pil_rounded_rect P box r x y then [v] else px m x y)\<rparr>"

text \<open>\<^verbatim>\<open>im.putalpha(mask)\<close> on an RGBA image: band 3 is overwritten with the mask's band.\<close>

definition with_alpha :: "image \<Rightarrow> image \<Rightarrow> image" where
  "with_alpha im msk = im\<lparr>px := (\<lambda>x y. (px im x y)[3 := band (px msk x y) 0])\<rparr>"

subsection \<open>Image objects\<close>

text \<open>
  Pillow images are mutable objects. The store is the list of the objects allocated so
  far; a reference is an index into it. \<^verbatim>\<open>Image.new\<close>, \<^verbatim>\<open>copy\<close> and \<^verbatim>\<open>resize\<close> allocate,
  \<^verbatim>\<open>thumbnail\<close>, \<^verbatim>\<open>paste\<close>, \<^verbatim>\<open>putalpha\<close> and drawing update an object in place.
\<close>

type_synonym ref = nat
type_synonym heap = "image list"

definition Image_new :: "mode \<Rightarrow> nat \<times> nat \<Rightarrow> byte list \<Rightarrow> heap \<Rightarrow> ref \<times> heap" where
  "Image_new m sz color h = (length h, h @ [blank m sz color])"

definition Image_copy :: "ref \<Rightarrow> heap \<Rightarrow> ref \<times> heap" where
  "Image_copy im h = (length h, h @ [h ! im])"

definition Image_resize :: "pillow \<Rightarrow> ref \<Rightarrow> nat \<times> nat \<Rightarrow> heap \<Rightarrow> ref \<times> heap" where
  "Image_resize P im sz h = (length h, h @ [resized P (h ! im) sz])"

definition Image_thumbnail :: "pillow \<Rightarrow> ref \<Rightarrow> nat \<times> nat \<Rightarrow> heap \<Rightarrow> heap" where
  "Image_thumbnail P im sz h = h[im := pil_thumbnail P (h ! im) sz]"

definition Image_paste :: "pillow \<Rightarrow> ref \<Rightarrow> ref \<Rightarrow> int \<times> int \<Rightarrow> ref \<Rightarrow> heap \<Rightarrow> heap" where
  "Image_paste P dst im xy msk h = h[dst := pasted P (h ! dst) (h ! im) xy (h ! msk)]"

definition Image_putalpha :: "ref \<Rightarrow> ref \<Rightarrow> heap \<Rightarrow> heap" where
  "Image_putalpha im msk h = h[im := with_alpha (h ! im) (h ! msk)]"

definition Draw_rounded_rectangle ::
  "pillow \<Rightarrow> ref \<Rightarrow> int \<times> int \<times> int \<times> int \<Rightarrow> int \<Rightarrow> byte \<Rightarrow> heap \<Rightarrow> heap" where
  "Draw_rounded_rectangle P m box r v h = h[m := drawn_rounded P (h ! m) box r v]"

section \<open>The operating system and the interpreter\<close>

subsection \<open>Files, directories, standard output\<close>

text \<open>
  The world of one run: the files and the directories, keyed by the path as the script
  spells it (relative to the working directory), the lines printed, and the paths that
  \<^verbatim>\<open>save\<close> has written, in order.
\<close>

record world =
  files :: "string \<rightharpoonup> fdata"
  dirs :: "string set"
  stdout :: "string list"
  writes :: "string list"

datatype exn =
  FileNotFoundError | FileExistsError | NotADirectoryError | IsADirectoryError
  | UnidentifiedImageError

text \<open>How a run ends: normally, by \<^verbatim>\<open>sys.exit(n)\<close>, or by an exception nobody catches.\<close>

datatype outcome = Done | SysExit int | Uncaught exn

definition exit_code :: "outcome \<Rightarrow> int" where
  "exit_code oc = (case oc of Done \<Rightarrow> 0 | SysExit n \<Rightarrow> n | Uncaught e \<Rightarrow> 1)"

definition print :: "string \<Rightarrow> world \<Rightarrow> world" where
  "print line w = w\<lparr>stdout := stdout w @ [line]\<rparr>"

definition path_exists :: "world \<Rightarrow> string \<Rightarrow> bool" where
  "path_exists w p = (p \<in> dom (files w) \<or> p \<in> dirs w)"

text \<open>\<^verbatim>\<open>posixpath.join\<close> of two components and \<^verbatim>\<open>posixpath.split\<close>.\<close>

definition path_join :: "string \<Rightarrow> string \<Rightarrow> string" where
  "path_join a b =
     (if b \<noteq> [] \<and> hd b = CHR ''/'' then b
      else if a = [] \<or> last a = CHR ''/'' then a @ b
      else a @ ''/'' @ b)"

definition path_split :: "string \<Rightarrow> string \<times> string" where
  "path_split p =
     (let h0 = dropWhile (\<lambda>c. c \<noteq> CHR ''/'') (rev p);
          h1 = dropWhile (\<lambda>c. c = CHR ''/'') h0
      in (if h1 = [] then rev h0 else rev h1, rev (takeWhile (\<lambda>c. c \<noteq> CHR ''/'') (rev p))))"

text \<open>\<^verbatim>\<open>os.mkdir\<close>: the parent must be a directory and nothing may exist at the path.\<close>

definition mkdir :: "string \<Rightarrow> world \<Rightarrow> exn + world" where
  "mkdir name w =
     (let parent = fst (path_split name) in
      if parent \<noteq> [] \<and> parent \<notin> dirs w then
        Inl (if parent \<in> dom (files w) then NotADirectoryError else FileNotFoundError)
      else if path_exists w name then Inl FileExistsError
      else Inr (w\<lparr>dirs := insert name (dirs w)\<rparr>))"

text \<open>The last step of \<^verbatim>\<open>os.makedirs(name, exist_ok=True)\<close>: an error of \<^verbatim>\<open>mkdir\<close> is
  swallowed when the path is a directory already.\<close>

definition mkdir_exist_ok :: "string \<Rightarrow> world \<Rightarrow> exn option \<times> world" where
  "mkdir_exist_ok name w =
     (case mkdir name w of
        Inl e \<Rightarrow> if name \<in> dirs w then (None, w) else (Some e, w)
      | Inr w' \<Rightarrow> (None, w'))"

text \<open>\<^verbatim>\<open>os.makedirs(name, exist_ok=True)\<close>: the missing ancestors first, then the directory.\<close>

function makedirs :: "string \<Rightarrow> world \<Rightarrow> exn option \<times> world" where
  "makedirs name w =
     (let head0 = fst (path_split name); tail0 = snd (path_split name);
          head = (if tail0 = [] then fst (path_split head0) else head0);
          tail = (if tail0 = [] then snd (path_split head0) else tail0)
      in if head \<noteq> [] \<and> tail \<noteq> [] \<and> \<not> path_exists w head then
           (case makedirs head w of
              (None, w1) \<Rightarrow> if tail = ''.'' then (None, w1) else mkdir_exist_ok name w1
            | (Some e, w1) \<Rightarrow>
                if e = FileExistsError
                then (if tail = ''.'' then (None, w1) else mkdir_exist_ok name w1)
                else (Some e, w1))
         else mkdir_exist_ok name w)"
  by pat_completeness auto
termination
proof (relation "measure (\<lambda>(name, w). length name)", goal_cases)
  case 1
  show ?case by simp
next
  case (2 name w head0 tail0 head tail)
  have len: "length (fst (path_split p)) + length (snd (path_split p)) \<le> length p" for p
  proof -
    define t where "t = takeWhile (\<lambda>c. c \<noteq> CHR ''/'') (rev p)"
    define h0 where "h0 = dropWhile (\<lambda>c. c \<noteq> CHR ''/'') (rev p)"
    define h1 where "h1 = dropWhile (\<lambda>c. c = CHR ''/'') h0"
    have "t @ h0 = rev p"
      unfolding t_def h0_def by (rule takeWhile_dropWhile_id)
    then have "length t + length h0 = length (rev p)"
      by (metis length_append)
    then have a: "length t + length h0 = length p"
      by simp
    have b: "length h1 \<le> length h0"
      unfolding h1_def by (rule length_dropWhile_le)
    have c: "path_split p = (if h1 = [] then rev h0 else rev h1, rev t)"
      unfolding path_split_def Let_def t_def h0_def h1_def by (rule refl)
    show ?thesis
    proof (cases "h1 = []")
      case True
      with a c show ?thesis by simp
    next
      case False
      with a b c show ?thesis by simp
    qed
  qed
  from 2 have c: "head0 = fst (path_split name)" "tail0 = snd (path_split name)"
    "head = (if tail0 = [] then fst (path_split head0) else head0)"
    "tail = (if tail0 = [] then snd (path_split head0) else tail0)" "tail \<noteq> []"
    by simp_all
  have "length head < length name"
  proof (cases "tail0 = []")
    case True
    with c have "0 < length (snd (path_split head0))" by simp
    with len [of head0] have "length (fst (path_split head0)) < length head0" by linarith
    moreover from len [of name] c have "length head0 \<le> length name" by simp
    ultimately show ?thesis using c True by simp
  next
    case False
    with c have "0 < length (snd (path_split name))" by simp
    with len [of name] have "length (fst (path_split name)) < length name" by linarith
    then show ?thesis using c False by simp
  qed
  then show ?case by simp
qed

declare makedirs.simps [simp del]

subsection \<open>Opening and saving\<close>

text \<open>\<^verbatim>\<open>Image.open(path).convert('RGBA')\<close>: a new image object, or the exception raised.\<close>

definition Image_open_rgba :: "pillow \<Rightarrow> string \<Rightarrow> world \<Rightarrow> heap \<Rightarrow> exn + (ref \<times> heap)" where
  "Image_open_rgba P path w h =
     (if path \<in> dirs w then Inl IsADirectoryError
      else case files w path of
             None \<Rightarrow> Inl FileNotFoundError
           | Some d \<Rightarrow>
               (case pil_decode_rgba P d of
                  None \<Rightarrow> Inl UnidentifiedImageError
                | Some im \<Rightarrow> Inr (length h, h @ [im])))"

text \<open>\<^verbatim>\<open>im.save(path, 'PNG')\<close>: creates or overwrites the file, whatever it held.\<close>

definition Image_save :: "ref \<Rightarrow> string \<Rightarrow> heap \<Rightarrow> world \<Rightarrow> exn + world" where
  "Image_save im path h w =
     (let parent = fst (path_split path) in
      if path \<in> dirs w then Inl IsADirectoryError
      else if parent \<noteq> [] \<and> parent \<notin> dirs w then
        Inl (if parent \<in> dom (files w) then NotADirectoryError else FileNotFoundError)
      else Inr (w\<lparr>files := (files w)(path \<mapsto> PngData (h ! im)), writes := writes w @ [path]\<rparr>))"

subsection \<open>Python arithmetic and formatting\<close>

text \<open>
  \<^verbatim>\<open>int(s * 0.2)\<close> is a binary64 product truncated towards zero. The literal \<^verbatim>\<open>0.2\<close> is the
  binary64 number \<open>3602879701896397 / 2^54\<close>; the product of a natural number \<open>s\<close> (below
  \<open>2^53\<close>) with it is the exact product rounded to 53 significant bits, ties to even.
\<close>

fun bit_length :: "nat \<Rightarrow> nat" where
  "bit_length n = (if n = 0 then 0 else Suc (bit_length (n div 2)))"

definition round_to_53 :: "nat \<Rightarrow> nat" where
  "round_to_53 n =
     (let l = bit_length n in
      if l \<le> 53 then n
      else
        let d = l - 53; q = n div 2 ^ d; rest = n mod 2 ^ d; half = 2 ^ (d - 1)
        in (if rest > half \<or> (rest = half \<and> odd q) then q + 1 else q) * 2 ^ d)"

definition int_mul_0_2 :: "nat \<Rightarrow> int" where
  "int_mul_0_2 s = int (round_to_53 (s * 3602879701896397) div 2 ^ 54)"

text \<open>\<^verbatim>\<open>str(n)\<close> of a natural number, as the f-string \<^verbatim>\<open>f'{s}x{s}.png'\<close> formats it.\<close>

fun str_nat :: "nat \<Rightarrow> string" where
  "str_nat n =
     (if n < 10 then [''0123456789'' ! n]
      else str_nat (n div 10) @ [''0123456789'' ! (n mod 10)])"

section \<open>The script\<close>

record args =
  src :: string
  rounded :: bool
  radius :: int

definition SIZES :: "nat list" where
  "SIZES = [32, 128, 256, 512, 1024]"

subsection \<open>\<^verbatim>\<open>apply_rounded\<close>\<close>

definition apply_rounded :: "pillow \<Rightarrow> ref \<Rightarrow> int \<Rightarrow> heap \<Rightarrow> ref \<times> heap" where
  "apply_rounded P im r h =
     (if r \<le> 0 then (im, h)
      else
        let w = width (h ! im); ht = height (h ! im);
            (msk, h1) = Image_new Mode_L (w, ht) [0] h;
            h2 = Draw_rounded_rectangle P msk (0, 0, int w, int ht) r 255 h1;
            (out, h3) = Image_copy im h2;
            h4 = Image_putalpha out msk h3
        in (out, h4))"


text \<open>The radius of lines 56 and 64: \<^verbatim>\<open>args.radius if args.radius > 0 else int(s * 0.2)\<close>.\<close>

definition corner_radius :: "args \<Rightarrow> nat \<Rightarrow> int" where
  "corner_radius a s = (if radius a > 0 then radius a else int_mul_0_2 s)"

subsection \<open>The loop over \<^verbatim>\<open>SIZES\<close>\<close>

fun export_sizes ::
  "pillow \<Rightarrow> args \<Rightarrow> ref \<Rightarrow> string \<Rightarrow> nat list \<Rightarrow> heap \<Rightarrow> world \<Rightarrow> exn option \<times> world" where
  "export_sizes P a canvas out_dir [] h w = (None, w)"
| "export_sizes P a canvas out_dir (s # ss) h w =
     (let (resized0, h1) = Image_resize P canvas (s, s) h;
          (resized1, h2) =
            (if rounded a then apply_rounded P resized0 (corner_radius a s) h1
             else (resized0, h1))
      in (case Image_save resized1
                 (path_join out_dir (str_nat s @ ''x'' @ str_nat s @ ''.png'')) h2 w of
            Inl e \<Rightarrow> (Some e, w)
          | Inr w' \<Rightarrow> export_sizes P a canvas out_dir ss h2 w'))"

subsection \<open>Centering on the canvas\<close>

definition base_size :: nat where
  "base_size = 1024"

text \<open>
  Lines 36 to 43 of \<^verbatim>\<open>main\<close>: a transparent canvas is allocated, the source is turned
  into its thumbnail in place and pasted onto the canvas, with itself as the mask.
\<close>

definition center_on_canvas :: "pillow \<Rightarrow> ref \<Rightarrow> heap \<Rightarrow> ref \<times> heap" where
  "center_on_canvas P img h1 =
     (let (canvas, h2) = Image_new Mode_RGBA (base_size, base_size) [0, 0, 0, 0] h1;
          h3 = Image_thumbnail P img (base_size, base_size) h2;
          x = (int base_size - int (width (h3 ! img))) div 2;
          y = (int base_size - int (height (h3 ! img))) div 2;
          h4 = Image_paste P canvas img (x, y) img h3
      in (canvas, h4))"

subsection \<open>\<^verbatim>\<open>main\<close>\<close>

text \<open>
  \<^verbatim>\<open>main\<close> after \<^verbatim>\<open>parse_args\<close>: the parsed arguments are the record \<open>args\<close>; a run starts
  with no image object allocated.
\<close>

definition main :: "pillow \<Rightarrow> args \<Rightarrow> world \<Rightarrow> outcome \<times> world" where
  "main P a w =
     (let src_path = src a in
      if \<not> path_exists w src_path then
        (SysExit 1, print (''Source not found: '' @ src_path) w)
      else
        (let out_dir = path_join ''src-tauri'' ''icons'' in
         case makedirs out_dir w of
           (Some e, w1) \<Rightarrow> (Uncaught e, w1)
         | (None, w1) \<Rightarrow>
            (case Image_open_rgba P src_path w1 [] of
               Inl e \<Rightarrow> (Uncaught e, w1)
             | Inr (img, h1) \<Rightarrow>
                 (let (canvas0, h4) = center_on_canvas P img h1;
                      (canvas, h5) =
                        (if rounded a then apply_rounded P canvas0 (corner_radius a base_size) h4
                         else (canvas0, h4))
                  in (case Image_save canvas (path_join out_dir ''icon.png'') h5 w1 of
                        Inl e \<Rightarrow> (Uncaught e, w1)
                      | Inr w2 \<Rightarrow>
                          (case export_sizes P a canvas out_dir SIZES h5 w2 of
                             (Some e, w3) \<Rightarrow> (Uncaught e, w3)
                           | (None, w3) \<Rightarrow>
                               (Done, print (''Wrote icons to '' @ out_dir) w3)))))))"

section \<open>What a run computes\<close>

text \<open>The images of a run as values, independent of the object store.\<close>

definition corner_mask :: "pillow \<Rightarrow> nat \<times> nat \<Rightarrow> int \<Rightarrow> image" where
  "corner_mask P sz r =
     drawn_rounded P (blank Mode_L sz [0]) (0, 0, int (fst sz), int (snd sz)) r 255"

definition masked :: "pillow \<Rightarrow> image \<Rightarrow> int \<Rightarrow> image" where
  "masked P im r = (if r \<le> 0 then im else with_alpha im (corner_mask P (width im, height im) r))"

definition composed :: "pillow \<Rightarrow> image \<Rightarrow> image" where
  "composed P im =
     (let t = pil_thumbnail P im (base_size, base_size);
          x = (int base_size - int (width t)) div 2;
          y = (int base_size - int (height t)) div 2
      in pasted P (blank Mode_RGBA (base_size, base_size) [0, 0, 0, 0]) t (x, y) t)"

definition base_image :: "pillow \<Rightarrow> args \<Rightarrow> image \<Rightarrow> image" where
  "base_image P a im =
     (if rounded a then masked P (composed P im) (corner_radius a base_size) else composed P im)"

definition sized_image :: "pillow \<Rightarrow> args \<Rightarrow> image \<Rightarrow> nat \<Rightarrow> image" where
  "sized_image P a base s =
     (if rounded a then masked P (resized P base (s, s)) (corner_radius a s)
      else resized P base (s, s))"

definition out_dir_path :: string where
  "out_dir_path = ''src-tauri/icons''"

definition sized_path :: "string \<Rightarrow> nat \<Rightarrow> string" where
  "sized_path d s = path_join d (str_nat s @ ''x'' @ str_nat s @ ''.png'')"

definition out_paths :: "string list" where
  "out_paths = path_join out_dir_path ''icon.png'' # map (sized_path out_dir_path) SIZES"

definition put_png :: "string \<Rightarrow> image \<Rightarrow> world \<Rightarrow> world" where
  "put_png p im w = w\<lparr>files := (files w)(p \<mapsto> PngData im), writes := writes w @ [p]\<rparr>"

definition save_ok :: "world \<Rightarrow> string \<Rightarrow> bool" where
  "save_ok w p = (p \<notin> dirs w \<and> (fst (path_split p) = [] \<or> fst (path_split p) \<in> dirs w))"

text \<open>The tree shape of a file system: nothing is both a file and a directory, and
  whatever exists lies in a directory.\<close>

definition wf_world :: "world \<Rightarrow> bool" where
  "wf_world w =
     (dom (files w) \<inter> dirs w = {} \<and>
      (\<forall>p. path_exists w p \<longrightarrow> fst (path_split p) = [] \<or> fst (path_split p) \<in> dirs w))"

text \<open>
  What the script relies on from \<^verbatim>\<open>Image.thumbnail\<close>, as Pillow documents it: the result
  keeps the mode, is no larger than the requested box nor than the image, is the image
  itself when that fits the box already, and keeps the aspect ratio up to the rounding
  of one side to whole pixels.
\<close>

definition thumbnail_contract :: "pillow \<Rightarrow> bool" where
  "thumbnail_contract P =
     (\<forall>im bw bh.
        mode (pil_thumbnail P im (bw, bh)) = mode im \<and>
        width (pil_thumbnail P im (bw, bh)) \<le> min bw (width im) \<and>
        height (pil_thumbnail P im (bw, bh)) \<le> min bh (height im) \<and>
        (width im \<le> bw \<and> height im \<le> bh \<longrightarrow> pil_thumbnail P im (bw, bh) = im) \<and>
        \<bar>int (width (pil_thumbnail P im (bw, bh))) * int (height im)
           - int (height (pil_thumbnail P im (bw, bh))) * int (width im)\<bar>
          \<le> int (max (width im) (height im)))"

text \<open>The world a successful run leaves, from the world \<open>w1\<close> after \<^verbatim>\<open>makedirs\<close>.\<close>

definition export_all :: "pillow \<Rightarrow> args \<Rightarrow> image \<Rightarrow> string \<Rightarrow> nat list \<Rightarrow> world \<Rightarrow> world" where
  "export_all P a base d ss w =
     foldl (\<lambda>w s. put_png (sized_path d s) (sized_image P a base s) w) w ss"

definition final_world :: "pillow \<Rightarrow> args \<Rightarrow> image \<Rightarrow> world \<Rightarrow> world" where
  "final_world P a im w1 =
     print (''Wrote icons to '' @ out_dir_path)
       (export_all P a (base_image P a im) out_dir_path SIZES
          (put_png (path_join out_dir_path ''icon.png'') (base_image P a im) w1))"

section \<open>A small instance of the library and of the world\<close>

text \<open>
  A stand-in for Pillow with nearest-neighbour sampling, used to run the model on concrete
  inputs, and a world holding one 2 by 2 source image.
\<close>

definition nn_size :: "nat \<times> nat \<Rightarrow> nat \<times> nat \<Rightarrow> nat \<times> nat" where
  "nn_size sz box =
     (if fst sz * snd box \<ge> snd sz * fst box
      then (fst box, snd sz * fst box div fst sz)
      else (fst sz * snd box div snd sz, snd box))"

definition nn_sample :: "image \<Rightarrow> nat \<times> nat \<Rightarrow> nat \<Rightarrow> nat \<Rightarrow> byte list" where
  "nn_sample im sz x y = px im (x * width im div fst sz) (y * height im div snd sz)"

definition nn_thumbnail :: "image \<Rightarrow> nat \<times> nat \<Rightarrow> image" where
  "nn_thumbnail im box =
     (if width im \<le> fst box \<and> height im \<le> snd box then im
      else \<lparr>mode = mode im,
            width = fst (nn_size (width im, height im) box),
            height = snd (nn_size (width im, height im) box),
            px = nn_sample im (nn_size (width im, height im) box)\<rparr>)"

definition nn_pillow :: pillow where
  "nn_pillow =
     \<lparr>pil_decode_rgba = (\<lambda>d. case d of PngData im \<Rightarrow> Some (im\<lparr>mode := Mode_RGBA\<rparr>) | Bytes bs \<Rightarrow> None),
      pil_thumbnail = nn_thumbnail,
      pil_blend = (\<lambda>d s m. if m = 0 then d else s),
      pil_lanczos = nn_sample,
      pil_rounded_rect = (\<lambda>box r x y.
         fst box \<le> int x \<and> int x \<le> fst (snd (snd box)) \<and>
         fst (snd box) \<le> int y \<and> int y \<le> snd (snd (snd box)) \<and>
         r \<le> (int x - fst box) + (int y - fst (snd box)))\<rparr>"

definition sample_image :: image where
  "sample_image = blank Mode_RGBA (2, 2) [255, 0, 0, 255]"

definition sample_world :: world where
  "sample_world =
     \<lparr>files = [''logo.png'' \<mapsto> PngData sample_image], dirs = {}, stdout = [], writes = []\<rparr>"

definition stale_world :: world where
  "stale_world =
     \<lparr>files = [''logo.png'' \<mapsto> PngData sample_image,
               ''src-tauri/icons/icon.png'' \<mapsto> Bytes [1, 2, 3]],
      dirs = {''src-tauri/icons'', ''src-tauri''}, stdout = [], writes = []\<rparr>"

definition clear_image :: image where
  "clear_image = blank Mode_RGBA (2, 2) [255, 0, 0, 0]"

definition wide_image :: image where
  "wide_image = blank Mode_RGBA (2000, 1000) [0, 0, 255, 255]"

section \<open>The store and the loop\<close>

lemma apply_rounded_nonpos: "r \<le> 0 \<Longrightarrow> apply_rounded P im r h = (im, h)"
  by (simp add: apply_rounded_def)

lemma apply_rounded_pos:
  assumes "0 < r" and "im < length h"
  shows "apply_rounded P im r h =
           (Suc (length h),
            h @ [corner_mask P (width (h ! im), height (h ! im)) r, masked P (h ! im) r])"
  using assms
  by (simp add: apply_rounded_def Image_new_def Draw_rounded_rectangle_def Image_copy_def
      Image_putalpha_def Let_def corner_mask_def masked_def nth_append list_update_append)

lemma apply_rounded_value:
  assumes "im < length h"
  shows "snd (apply_rounded P im r h) ! fst (apply_rounded P im r h) = masked P (h ! im) r"
proof (cases "r \<le> 0")
  case True
  then show ?thesis by (simp add: apply_rounded_nonpos masked_def)
next
  case False
  then show ?thesis using assms by (simp add: apply_rounded_pos nth_append)
qed

lemma apply_rounded_extends:
  "\<exists>ext. snd (apply_rounded P im r h) = h @ ext"
proof (cases "r \<le> 0")
  case True
  then show ?thesis by (simp add: apply_rounded_nonpos)
next
  case False
  then show ?thesis 
  by (simp add: apply_rounded_def Image_new_def Draw_rounded_rectangle_def Image_copy_def
      Image_putalpha_def Let_def  nth_append list_update_append)
qed

lemma center_on_canvas_eq:
  assumes "img < length h"
  shows "center_on_canvas P img h =
           (length h, h[img := pil_thumbnail P (h ! img) (base_size, base_size)] @ [composed P (h ! img)])"
  using assms
  by (simp add: center_on_canvas_def Image_new_def Image_thumbnail_def Image_paste_def Let_def
      composed_def nth_append list_update_append)


lemma Image_save_eq:
  "Image_save r p h w =
     (if save_ok w p then Inr (put_png p (h ! r) w)
      else Inl (if p \<in> dirs w then IsADirectoryError
                else if fst (path_split p) \<in> dom (files w) then NotADirectoryError
                else FileNotFoundError))"
  by (auto simp add: Image_save_def save_ok_def put_png_def Let_def)

lemma save_ok_put_png [simp]: "save_ok (put_png p im w) q = save_ok w q"
  by (simp add: save_ok_def put_png_def)

lemma export_sizes_unfold:
  "export_sizes P a canvas d (s # ss) h w =
     (let h1 = h @ [resized P (h ! canvas) (s, s)];
          rh = (if rounded a then apply_rounded P (length h) (corner_radius a s) h1
                else (length h, h1))
      in if save_ok w (sized_path d s)
         then export_sizes P a canvas d ss (snd rh) (put_png (sized_path d s) (snd rh ! fst rh) w)
         else (Some (if sized_path d s \<in> dirs w then IsADirectoryError
                else if fst (path_split (sized_path d s)) \<in> dom (files w) then NotADirectoryError
                else FileNotFoundError), w))"
  by (simp add: Image_resize_def Image_save_eq sized_path_def Let_def split_beta)

lemma export_sizes_step:
  assumes "canvas < length h"
  shows "\<exists>ext e. export_sizes P a canvas d (s # ss) h w =
           (if save_ok w (sized_path d s)
            then export_sizes P a canvas d ss (h @ ext)
                   (put_png (sized_path d s) (sized_image P a (h ! canvas) s) w)
            else (Some e, w))"
proof (cases "rounded a")
  case False
  have "export_sizes P a canvas d (s # ss) h w =
           (if save_ok w (sized_path d s)
            then export_sizes P a canvas d ss (h @ [resized P (h ! canvas) (s, s)])
                   (put_png (sized_path d s) (sized_image P a (h ! canvas) s) w)
            else (Some (if sized_path d s \<in> dirs w then IsADirectoryError
                else if fst (path_split (sized_path d s)) \<in> dom (files w) then NotADirectoryError
                else FileNotFoundError), w))"
    unfolding export_sizes_unfold using False by (simp add: sized_image_def Let_def)
  then show ?thesis by blast
next
  case True
  let ?h1 = "h @ [resized P (h ! canvas) (s, s)]"
  let ?r = "corner_radius a s"
  obtain ext where ext: "snd (apply_rounded P (length h) ?r ?h1) = ?h1 @ ext"
    using apply_rounded_extends by blast
  have val: "snd (apply_rounded P (length h) ?r ?h1) ! fst (apply_rounded P (length h) ?r ?h1)
               = masked P (resized P (h ! canvas) (s, s)) ?r"
    using apply_rounded_value [of "length h" ?h1 P ?r] by simp
  have "export_sizes P a canvas d (s # ss) h w =
           (if save_ok w (sized_path d s)
            then export_sizes P a canvas d ss (h @ (resized P (h ! canvas) (s, s) # ext))
                   (put_png (sized_path d s) (sized_image P a (h ! canvas) s) w)
            else (Some (if sized_path d s \<in> dirs w then IsADirectoryError
                else if fst (path_split (sized_path d s)) \<in> dom (files w) then NotADirectoryError
                else FileNotFoundError), w))"
    unfolding export_sizes_unfold using True ext val by (simp add: sized_image_def Let_def)
  then show ?thesis by blast
qed

lemma export_sizes_ok:
  assumes "canvas < length h" and "\<forall>s\<in>set ss. save_ok w (sized_path d s)"
  shows "export_sizes P a canvas d ss h w = (None, export_all P a (h ! canvas) d ss w)"
  using assms
proof (induction ss arbitrary: h w)
  case Nil
  then show ?case by (simp add: export_all_def)
next
  case (Cons s ss)
  obtain ext e where st: "export_sizes P a canvas d (s # ss) h w =
           (if save_ok w (sized_path d s)
            then export_sizes P a canvas d ss (h @ ext)
                   (put_png (sized_path d s) (sized_image P a (h ! canvas) s) w)
            else (Some e, w))"
    using export_sizes_step [OF Cons.prems(1)] by blast
  have "export_sizes P a canvas d ss (h @ ext)
          (put_png (sized_path d s) (sized_image P a (h ! canvas) s) w)
        = (None, export_all P a ((h @ ext) ! canvas) d ss
             (put_png (sized_path d s) (sized_image P a (h ! canvas) s) w))"
    using Cons.prems by (intro Cons.IH) simp_all
  with st Cons.prems show ?case
    by (simp add: export_all_def nth_append)
qed

lemma export_sizes_None:
  assumes "canvas < length h" and "fst (export_sizes P a canvas d ss h w) = None"
  shows "\<forall>s\<in>set ss. save_ok w (sized_path d s)"
  using assms
proof (induction ss arbitrary: h w)
  case Nil
  then show ?case by simp
next
  case (Cons s ss)
  obtain ext e where st: "export_sizes P a canvas d (s # ss) h w =
           (if save_ok w (sized_path d s)
            then export_sizes P a canvas d ss (h @ ext)
                   (put_png (sized_path d s) (sized_image P a (h ! canvas) s) w)
            else (Some e, w))"
    using export_sizes_step [OF Cons.prems(1)] by blast
  from st Cons.prems(2) have ok: "save_ok w (sized_path d s)"
    by (auto split: if_splits)
  with st Cons.prems(2) have "fst (export_sizes P a canvas d ss (h @ ext)
          (put_png (sized_path d s) (sized_image P a (h ! canvas) s) w)) = None"
    by simp
  then have "\<forall>t\<in>set ss. save_ok (put_png (sized_path d s) (sized_image P a (h ! canvas) s) w) (sized_path d t)"
    using Cons.prems(1) by (intro Cons.IH) simp_all
  with ok show ?case by simp
qed


lemma makedirs_parent: "makedirs ''src-tauri'' w = mkdir_exist_ok ''src-tauri'' w"
  by (subst makedirs.simps) (simp add: path_split_def Let_def)

lemma split_parent [simp]: "fst (path_split ''src-tauri'') = []"
  and split_icons [simp]: "fst (path_split ''src-tauri/icons'') = ''src-tauri''"
  by (simp_all add: path_split_def)

lemma mkdir_parent_fresh:
  "\<not> path_exists w ''src-tauri'' \<Longrightarrow>
     mkdir_exist_ok ''src-tauri'' w = (None, w\<lparr>dirs := insert ''src-tauri'' (dirs w)\<rparr>)"
  by (simp add: mkdir_exist_ok_def mkdir_def)

lemma mkdir_icons:
  "mkdir_exist_ok ''src-tauri/icons'' w =
     (if ''src-tauri'' \<in> dirs w \<and> \<not> path_exists w ''src-tauri/icons''
      then (None, w\<lparr>dirs := insert ''src-tauri/icons'' (dirs w)\<rparr>)
      else if ''src-tauri/icons'' \<in> dirs w then (None, w)
      else (Some (if ''src-tauri'' \<notin> dirs w
                  then (if ''src-tauri'' \<in> dom (files w) then NotADirectoryError
                        else FileNotFoundError)
                  else FileExistsError), w))"
  by (simp add: mkdir_exist_ok_def mkdir_def)

lemma makedirs_icons:
  "makedirs ''src-tauri/icons'' w =
     (if \<not> path_exists w ''src-tauri''
      then mkdir_exist_ok ''src-tauri/icons'' (w\<lparr>dirs := insert ''src-tauri'' (dirs w)\<rparr>)
      else mkdir_exist_ok ''src-tauri/icons'' w)"
proof (cases "path_exists w ''src-tauri''")
  case True
  then show ?thesis
    by (subst makedirs.simps) (simp add: path_split_def Let_def)
next
  case False
  then show ?thesis
    by (subst makedirs.simps) (simp add: path_split_def Let_def makedirs_parent mkdir_parent_fresh)
qed

lemma makedirs_icons_frame:
  assumes "makedirs ''src-tauri/icons'' w = (r, w1)"
  shows "w1 = w\<lparr>dirs := dirs w1\<rparr>"
    and "dirs w \<subseteq> dirs w1"
    and "dirs w1 \<subseteq> insert ''src-tauri/icons'' (insert ''src-tauri'' (dirs w))"
    and "r = None \<Longrightarrow> ''src-tauri/icons'' \<in> dirs w1"
proof -
  note defs = makedirs_icons mkdir_icons
  show "w1 = w\<lparr>dirs := dirs w1\<rparr>"
    using assms by (cases "path_exists w ''src-tauri''") (auto simp add: defs split: if_splits)
  show "dirs w \<subseteq> dirs w1"
    using assms by (cases "path_exists w ''src-tauri''") (auto simp add: defs split: if_splits)
  show "dirs w1 \<subseteq> insert ''src-tauri/icons'' (insert ''src-tauri'' (dirs w))"
    using assms by (cases "path_exists w ''src-tauri''") (auto simp add: defs split: if_splits)
  show "r = None \<Longrightarrow> ''src-tauri/icons'' \<in> dirs w1"
    using assms by (cases "path_exists w ''src-tauri''") (auto simp add: defs split: if_splits)
qed

lemma makedirs_icons_wf:
  assumes "makedirs ''src-tauri/icons'' w = (None, w1)" and "wf_world w"
  shows "w1 = w\<lparr>dirs := insert ''src-tauri/icons'' (insert ''src-tauri'' (dirs w))\<rparr>"
proof -
  from assms(2) have p: "''src-tauri/icons'' \<in> dirs w \<Longrightarrow> ''src-tauri'' \<in> dirs w"
    unfolding wf_world_def path_exists_def
    by (metis split_icons list.distinct(1))
  from assms(2) have q: "''src-tauri'' \<in> dirs w \<Longrightarrow> ''src-tauri'' \<notin> dom (files w)"
    unfolding wf_world_def by blast
  show ?thesis
  proof (cases "path_exists w ''src-tauri''")
    case True
    with assms(1) p show ?thesis
      by (auto simp add: makedirs_icons mkdir_icons insert_absorb split: if_splits)
  next
    case False
    then have "''src-tauri'' \<notin> dirs w"
      by (simp add: path_exists_def)
    with p have "''src-tauri/icons'' \<notin> dirs w" by blast
    with assms(1) False show ?thesis
      by (auto simp add: makedirs_icons mkdir_icons path_exists_def insert_commute split: if_splits)
  qed
qed



lemma out_dir_join: "path_join ''src-tauri'' ''icons'' = out_dir_path"
  by (simp add: path_join_def out_dir_path_def)

lemma out_paths_eq:
  "out_paths =
     [''src-tauri/icons/icon.png'', ''src-tauri/icons/32x32.png'',
      ''src-tauri/icons/128x128.png'', ''src-tauri/icons/256x256.png'',
      ''src-tauri/icons/512x512.png'', ''src-tauri/icons/1024x1024.png'']"
  by (simp add: out_paths_def out_dir_path_def SIZES_def sized_path_def path_join_def)

lemma out_paths_parent: "p \<in> set out_paths \<Longrightarrow> fst (path_split p) = out_dir_path"
  by (auto simp add: out_paths_eq out_dir_path_def path_split_def)

lemma out_paths_not_dir: "out_dir_path \<notin> set out_paths" "''src-tauri'' \<notin> set out_paths"
  by (simp_all add: out_paths_eq out_dir_path_def)

lemma int_mul_0_2_SIZES: "map int_mul_0_2 SIZES = [6, 25, 51, 102, 204]"
  by (simp add: SIZES_def int_mul_0_2_def round_to_53_def Let_def)

lemma int_mul_0_2_base: "int_mul_0_2 base_size = 204"
  by (simp add: base_size_def int_mul_0_2_def round_to_53_def Let_def)

lemma corner_radius_base_pos: "0 < corner_radius a base_size"
  by (simp add: corner_radius_def int_mul_0_2_base)

lemma apply_rounded_valid:
  assumes "im < length h"
  shows "fst (apply_rounded P im r h) < length (snd (apply_rounded P im r h))"
proof (cases "r \<le> 0")
  case True
  with assms show ?thesis by (simp add: apply_rounded_nonpos)
next
  case False
  with assms show ?thesis by (simp add: apply_rounded_pos)
qed

text \<open>The image objects of \<open>main\<close> once the canvas is final.\<close>

lemma canvas_phase:
  assumes "center_on_canvas P 0 [im] = (c0, h4)"
    and "(if rounded a then apply_rounded P c0 (corner_radius a base_size) h4 else (c0, h4)) = (c, h5)"
  shows "c < length h5 \<and> h5 ! c = base_image P a im"
proof -
  from assms(1) have c0: "c0 = 1" and h4: "h4 = [pil_thumbnail P im (base_size, base_size), composed P im]"
    by (simp_all add: center_on_canvas_eq)
  show ?thesis
  proof (cases "rounded a")
    case False
    with assms(2) c0 h4 show ?thesis by (auto simp add: base_image_def)
  next
    case True
    with assms(2) have ar: "apply_rounded P c0 (corner_radius a base_size) h4 = (c, h5)" by simp
    have v: "c0 < length h4" using c0 h4 by simp
    from apply_rounded_valid [OF v, of P "corner_radius a base_size"]
      apply_rounded_value [OF v, of P "corner_radius a base_size"] ar
    show ?thesis using True c0 h4 by (simp add: base_image_def)
  qed
qed

lemma main_unfold:
  "main P a w =
     (if \<not> path_exists w (src a) then
        (SysExit 1, print (''Source not found: '' @ src a) w)
      else
        (case makedirs out_dir_path w of
           (Some e, w1) \<Rightarrow> (Uncaught e, w1)
         | (None, w1) \<Rightarrow>
            (case Image_open_rgba P (src a) w1 [] of
               Inl e \<Rightarrow> (Uncaught e, w1)
             | Inr (img, h1) \<Rightarrow>
                 (let (canvas0, h4) = center_on_canvas P img h1;
                      (canvas, h5) =
                        (if rounded a then apply_rounded P canvas0 (corner_radius a base_size) h4
                         else (canvas0, h4))
                  in (case Image_save canvas (path_join out_dir_path ''icon.png'') h5 w1 of
                        Inl e \<Rightarrow> (Uncaught e, w1)
                      | Inr w2 \<Rightarrow>
                          (case export_sizes P a canvas out_dir_path SIZES h5 w2 of
                             (Some e, w3) \<Rightarrow> (Uncaught e, w3)
                           | (None, w3) \<Rightarrow>
                               (Done, print (''Wrote icons to '' @ out_dir_path) w3)))))))"
  unfolding main_def Let_def out_dir_join by (rule refl)


lemma save_ok_out:
  assumes "out_dir_path \<in> dirs w1" and "p \<in> set out_paths"
  shows "save_ok w1 p \<longleftrightarrow> p \<notin> dirs w1"
  using assms by (simp add: save_ok_def out_paths_parent)

lemma export_all_dirs [simp]: "dirs (export_all P a b d ss w) = dirs w"
  unfolding export_all_def by (induction ss arbitrary: w) (simp_all add: put_png_def)

lemma main_Done:
  assumes ex: "path_exists w (src a)"
    and mk: "makedirs out_dir_path w = (None, w1)"
    and nd: "src a \<notin> dirs w1"
    and fl: "files w (src a) = Some d"
    and dc: "pil_decode_rgba P d = Some im"
    and op: "\<forall>p\<in>set out_paths. p \<notin> dirs w1"
  shows "main P a w = (Done, final_world P a im w1)"
proof -
  from mk have fr: "w1 = w\<lparr>dirs := dirs w1\<rparr>" and ic: "out_dir_path \<in> dirs w1"
    using makedirs_icons_frame(1,4) [of w None w1] by (simp_all add: out_dir_path_def)
  from fr have "files w1 = files w" by (metis world.select_convs(1) world.surjective world.update_convs(2))
  with nd fl dc have opn: "Image_open_rgba P (src a) w1 [] = Inr (0, [im])"
    by (simp add: Image_open_rgba_def)
  obtain c0 h4 where cc: "center_on_canvas P 0 [im] = (c0, h4)"
    by (cases "center_on_canvas P 0 [im]")
  obtain c h5 where ar: "(if rounded a then apply_rounded P c0 (corner_radius a base_size) h4 else (c0, h4)) = (c, h5)"
    by (cases "(if rounded a then apply_rounded P c0 (corner_radius a base_size) h4 else (c0, h4))")
  from canvas_phase [OF cc ar] have c: "c < length h5" and v: "h5 ! c = base_image P a im"
    by simp_all
  have icon: "path_join out_dir_path ''icon.png'' \<in> set out_paths"
    by (simp add: out_paths_def)
  have s0: "save_ok w1 (path_join out_dir_path ''icon.png'')"
    using save_ok_out [OF ic icon] op icon by blast
  let ?w2 = "put_png (path_join out_dir_path ''icon.png'') (base_image P a im) w1"
  have sv: "Image_save c (path_join out_dir_path ''icon.png'') h5 w1 = Inr ?w2"
    using s0 v by (simp add: Image_save_eq)
  have "\<forall>s\<in>set SIZES. save_ok ?w2 (sized_path out_dir_path s)"
  proof
    fix s assume "s \<in> set SIZES"
    then have m: "sized_path out_dir_path s \<in> set out_paths"
      by (simp add: out_paths_def)
    from save_ok_out [OF ic m] op m show "save_ok ?w2 (sized_path out_dir_path s)"
      by simp
  qed
  from export_sizes_ok [OF c this, of P a]
  have lp: "export_sizes P a c out_dir_path SIZES h5 ?w2
              = (None, export_all P a (base_image P a im) out_dir_path SIZES ?w2)"
    using v by simp
  show ?thesis
    unfolding main_unfold using ex mk opn cc ar sv lp
    by (simp add: final_world_def)
qed


lemma main_Done_conv:
  assumes "fst (main P a w) = Done"
  shows "\<exists>w1 d im. path_exists w (src a) \<and> makedirs out_dir_path w = (None, w1) \<and>
           src a \<notin> dirs w1 \<and> files w (src a) = Some d \<and> pil_decode_rgba P d = Some im \<and>
           (\<forall>p\<in>set out_paths. p \<notin> dirs w1)"
proof -
  from assms have ex: "path_exists w (src a)"
    unfolding main_unfold by (auto split: if_splits)
  obtain r w1 where mk0: "makedirs out_dir_path w = (r, w1)"
    by (cases "makedirs out_dir_path w")
  with assms ex have "r = None"
    unfolding main_unfold by (cases r) simp_all
  with mk0 have mk: "makedirs out_dir_path w = (None, w1)" by simp
  from mk have fr: "w1 = w\<lparr>dirs := dirs w1\<rparr>" and ic: "out_dir_path \<in> dirs w1"
    using makedirs_icons_frame(1,4) [of w None w1] by (simp_all add: out_dir_path_def)
  from fr have fw: "files w1 = files w"
    by (metis world.select_convs(1) world.surjective world.update_convs(2))
  obtain img h1 where opn: "Image_open_rgba P (src a) w1 [] = Inr (img, h1)"
    using assms ex mk unfolding main_unfold
    by (cases "Image_open_rgba P (src a) w1 []") auto
  then obtain d im where nd: "src a \<notin> dirs w1" and fl: "files w (src a) = Some d"
    and dc: "pil_decode_rgba P d = Some im" and ih: "img = 0" "h1 = [im]"
    unfolding Image_open_rgba_def fw by (auto split: if_splits option.splits)
  obtain c0 h4 where cc: "center_on_canvas P 0 [im] = (c0, h4)"
    by (cases "center_on_canvas P 0 [im]")
  obtain c h5 where ar: "(if rounded a then apply_rounded P c0 (corner_radius a base_size) h4 else (c0, h4)) = (c, h5)"
    by (cases "(if rounded a then apply_rounded P c0 (corner_radius a base_size) h4 else (c0, h4))")
  from canvas_phase [OF cc ar] have c: "c < length h5" and v: "h5 ! c = base_image P a im"
    by simp_all
  have icon: "path_join out_dir_path ''icon.png'' \<in> set out_paths"
    by (simp add: out_paths_def)
  let ?w2 = "put_png (path_join out_dir_path ''icon.png'') (base_image P a im) w1"
  have s0: "save_ok w1 (path_join out_dir_path ''icon.png'')"
  proof (rule ccontr)
    assume "\<not> save_ok w1 (path_join out_dir_path ''icon.png'')"
    then have "\<exists>e. Image_save c (path_join out_dir_path ''icon.png'') h5 w1 = Inl e"
      by (simp add: Image_save_eq)
    with assms ex mk opn ih cc ar show False
      unfolding main_unfold by auto
  qed
  then have sv: "Image_save c (path_join out_dir_path ''icon.png'') h5 w1 = Inr ?w2"
    using v by (simp add: Image_save_eq)
  have "fst (export_sizes P a c out_dir_path SIZES h5 ?w2) = None"
    using assms ex mk opn ih cc ar sv unfolding main_unfold
    by (cases "export_sizes P a c out_dir_path SIZES h5 ?w2"; cases "fst (export_sizes P a c out_dir_path SIZES h5 ?w2)") auto
  from export_sizes_None [OF c this] have lp: "\<forall>s\<in>set SIZES. save_ok w1 (sized_path out_dir_path s)"
    by simp
  have "\<forall>p\<in>set out_paths. save_ok w1 p"
    using s0 lp by (simp add: out_paths_def)
  then have "\<forall>p\<in>set out_paths. p \<notin> dirs w1"
    using save_ok_out [OF ic] by blast
  with ex mk nd fl dc show ?thesis by blast
qed

lemma main_Done_eq:
  assumes "fst (main P a w) = Done" and "files w (src a) = Some d" and "pil_decode_rgba P d = Some im"
  shows "main P a w = (Done, final_world P a im (snd (makedirs out_dir_path w)))"
proof -
  from main_Done_conv [OF assms(1)] obtain w1 d' im' where
    c: "path_exists w (src a)" "makedirs out_dir_path w = (None, w1)"
       "src a \<notin> dirs w1" "files w (src a) = Some d'" "pil_decode_rgba P d' = Some im'"
       "\<forall>p\<in>set out_paths. p \<notin> dirs w1"
    by blast
  with assms have "d' = d" "im' = im" by simp_all
  with main_Done [OF c] c(2) show ?thesis by simp
qed

section \<open>The arguments a run depends on\<close>

lemma export_sizes_args_cong:
  assumes r: "rounded a = rounded b"
    and c: "\<And>s. rounded a \<Longrightarrow> s \<in> set ss \<Longrightarrow> corner_radius a s = corner_radius b s"
  shows "export_sizes P a canvas d ss h w = export_sizes P b canvas d ss h w"
  using c
proof (induction ss arbitrary: h w)
  case Nil
  show ?case by simp
next
  case (Cons s ss)
  have ih: "export_sizes P a canvas d ss h' w' = export_sizes P b canvas d ss h' w'" for h' w'
  proof (rule Cons.IH)
    fix t assume "rounded a" "t \<in> set ss"
    then show "corner_radius a t = corner_radius b t"
      using Cons.prems [of t] by simp
  qed
  have step: "(if rounded a then apply_rounded P r0 (corner_radius a s) h1 else (r0, h1))
            = (if rounded b then apply_rounded P r0 (corner_radius b s) h1 else (r0, h1))" for r0 h1
  proof (cases "rounded a")
    case True
    then have "corner_radius a s = corner_radius b s"
      using Cons.prems [of s] by simp
    with True r show ?thesis by simp
  next
    case False
    with r show ?thesis by simp
  qed
  show ?case
    unfolding export_sizes.simps step ih by (rule refl)
qed

lemma main_args_cong:
  assumes "src a = src b" and "rounded a = rounded b"
    and "rounded a \<Longrightarrow> \<forall>s. corner_radius a s = corner_radius b s"
  shows "main P a w = main P b w"
proof -
  have e: "export_sizes P a canvas d SIZES h w' = export_sizes P b canvas d SIZES h w'" for canvas d h w'
    using assms(2,3) by (intro export_sizes_args_cong) blast+
  have c: "(if rounded a then apply_rounded P c0 (corner_radius a base_size) h4 else (c0, h4))
         = (if rounded b then apply_rounded P c0 (corner_radius b base_size) h4 else (c0, h4))" for c0 h4
    using assms by simp
  show ?thesis
    unfolding main_def Let_def e c assms(1) by (rule refl)
qed

section \<open>The sample library meets the thumbnail contract\<close>

lemma nn_size_wide:
  fixes w h bw bh :: nat
  assumes lim: "h * bw \<le> w * bh" and nofit: "bw < w \<or> bh < h"
  shows "bw \<le> w" and "h * bw div w \<le> bh" and "h * bw div w \<le> h"
    and "\<bar>int bw * int h - int (h * bw div w) * int w\<bar> \<le> int (max w h)"
proof -
  show bw: "bw \<le> w"
  proof (rule ccontr)
    assume "\<not> bw \<le> w"
    then have a: "w < bw" by simp
    with nofit have b: "bh < h" by simp
    from b have "w * bh \<le> w * h" by simp
    then have "w * bh \<le> h * w" by (simp add: mult.commute)
    also from a b have "h * w < h * bw" by simp
    finally have "w * bh < h * bw" .
    with lim show False by simp
  qed
  from lim have "h * bw div w \<le> w * bh div w"
    by (rule div_le_mono)
  also have "\<dots> \<le> bh" by (cases "w = 0") simp_all
  finally show "h * bw div w \<le> bh" .
  from bw have "h * bw \<le> h * w" by simp
  then have "h * bw div w \<le> h * w div w" by (rule div_le_mono)
  also have "\<dots> \<le> h" by (cases "w = 0") simp_all
  finally show "h * bw div w \<le> h" .
  have "(h * bw div w) * w + (h * bw) mod w = h * bw"
    by (simp add: mult.commute)
  then have e: "int (h * bw div w) * int w + int ((h * bw) mod w) = int bw * int h"
    by (metis of_nat_add of_nat_mult mult.commute)
  have m: "(h * bw) mod w \<le> max w h"
  proof (cases "w = 0")
    case True
    with bw show ?thesis by simp
  next
    case False
    then have "(h * bw) mod w < w" by simp
    then show ?thesis by simp
  qed
  from e have "\<bar>int bw * int h - int (h * bw div w) * int w\<bar> = int ((h * bw) mod w)"
    by simp
  with m show "\<bar>int bw * int h - int (h * bw div w) * int w\<bar> \<le> int (max w h)"
    by simp
qed

lemma nn_thumbnail_contract: "thumbnail_contract nn_pillow"
proof -
  have "mode (nn_thumbnail im (bw, bh)) = mode im \<and>
        width (nn_thumbnail im (bw, bh)) \<le> min bw (width im) \<and>
        height (nn_thumbnail im (bw, bh)) \<le> min bh (height im) \<and>
        (width im \<le> bw \<and> height im \<le> bh \<longrightarrow> nn_thumbnail im (bw, bh) = im) \<and>
        \<bar>int (width (nn_thumbnail im (bw, bh))) * int (height im)
           - int (height (nn_thumbnail im (bw, bh))) * int (width im)\<bar>
          \<le> int (max (width im) (height im))" for im bw bh
  proof (cases "width im \<le> bw \<and> height im \<le> bh")
    case True
    then show ?thesis by (simp add: nn_thumbnail_def)
  next
    case False
    then have nofit: "bw < width im \<or> bh < height im" by auto
    show ?thesis
    proof (cases "height im * bw \<le> width im * bh")
      case True
      from nn_size_wide [OF True nofit] True False show ?thesis
        by (simp add: nn_thumbnail_def nn_size_def)
    next
      case F2: False
      then have lim: "width im * bh \<le> height im * bw" by simp
      from nofit have nofit': "bh < height im \<or> bw < width im" by blast
      from nn_size_wide [OF lim nofit'] F2 False show ?thesis
        by (simp add: nn_thumbnail_def nn_size_def max.commute abs_minus_commute mult.commute)
    qed
  qed
  then show ?thesis
    by (simp add: thumbnail_contract_def nn_pillow_def)
qed

section \<open>The world after a successful run\<close>

lemma final_files:
  "files (final_world P a im w1) =
     (files w1)
       (''src-tauri/icons/icon.png'' \<mapsto> PngData (base_image P a im),
        ''src-tauri/icons/32x32.png'' \<mapsto> PngData (sized_image P a (base_image P a im) 32),
        ''src-tauri/icons/128x128.png'' \<mapsto> PngData (sized_image P a (base_image P a im) 128),
        ''src-tauri/icons/256x256.png'' \<mapsto> PngData (sized_image P a (base_image P a im) 256),
        ''src-tauri/icons/512x512.png'' \<mapsto> PngData (sized_image P a (base_image P a im) 512),
        ''src-tauri/icons/1024x1024.png'' \<mapsto> PngData (sized_image P a (base_image P a im) 1024))"
  by (simp add: final_world_def export_all_def SIZES_def put_png_def print_def sized_path_def
      path_join_def out_dir_path_def)

lemma sized_paths_eq:
  "sized_path out_dir_path 32 = ''src-tauri/icons/32x32.png''"
  "sized_path out_dir_path 128 = ''src-tauri/icons/128x128.png''"
  "sized_path out_dir_path 256 = ''src-tauri/icons/256x256.png''"
  "sized_path out_dir_path 512 = ''src-tauri/icons/512x512.png''"
  "sized_path out_dir_path 1024 = ''src-tauri/icons/1024x1024.png''"
  by (simp_all add: sized_path_def path_join_def out_dir_path_def)

lemma final_files_icon:
  "files (final_world P a im w1) ''src-tauri/icons/icon.png'' = Some (PngData (base_image P a im))"
  by (simp add: final_files)

lemma final_files_sized:
  assumes "s \<in> set SIZES"
  shows "files (final_world P a im w1) (sized_path out_dir_path s)
           = Some (PngData (sized_image P a (base_image P a im) s))"
proof -
  from assms consider "s = 32" | "s = 128" | "s = 256" | "s = 512" | "s = 1024"
    by (auto simp add: SIZES_def)
  then show ?thesis
    by cases (simp_all add: sized_paths_eq final_files)
qed

lemma final_files_other:
  assumes "p \<notin> set out_paths"
  shows "files (final_world P a im w1) p = files w1 p"
  using assms by (simp add: final_files out_paths_eq)

lemma final_writes: "writes (final_world P a im w1) = writes w1 @ out_paths"
  by (simp add: final_world_def export_all_def SIZES_def put_png_def print_def out_paths_def)

lemma final_dirs: "dirs (final_world P a im w1) = dirs w1"
  by (simp add: final_world_def put_png_def print_def)

lemma final_stdout:
  "stdout (final_world P a im w1) = stdout w1 @ [''Wrote icons to src-tauri/icons'']"
  by (simp add: final_world_def export_all_def SIZES_def put_png_def print_def out_dir_path_def)

lemma masked_size [simp]:
  "width (masked P im r) = width im" "height (masked P im r) = height im"
  "mode (masked P im r) = mode im"
  by (simp_all add: masked_def with_alpha_def)

lemma sized_image_size [simp]:
  "width (sized_image P a b s) = s" "height (sized_image P a b s) = s"
  by (simp_all add: sized_image_def resized_def)

lemma sample_makedirs:
  "makedirs out_dir_path sample_world
     = (None, sample_world\<lparr>dirs := {''src-tauri/icons'', ''src-tauri''}\<rparr>)"
  by (simp add: out_dir_path_def makedirs_icons mkdir_icons path_exists_def sample_world_def)

lemma sample_done:
  assumes "src a = ''logo.png''"
  shows "main nn_pillow a sample_world
           = (Done, final_world nn_pillow a (sample_image\<lparr>mode := Mode_RGBA\<rparr>)
                      (sample_world\<lparr>dirs := {''src-tauri/icons'', ''src-tauri''}\<rparr>))"
proof (rule main_Done [OF _ sample_makedirs])
  show "path_exists sample_world (src a)"
    using assms by (simp add: path_exists_def sample_world_def)
  show "src a \<notin> dirs (sample_world\<lparr>dirs := {''src-tauri/icons'', ''src-tauri''}\<rparr>)"
    using assms by simp
  show "files sample_world (src a) = Some (PngData sample_image)"
    using assms by (simp add: sample_world_def)
  show "pil_decode_rgba nn_pillow (PngData sample_image) = Some (sample_image\<lparr>mode := Mode_RGBA\<rparr>)"
    by (simp add: nn_pillow_def)
  show "\<forall>p\<in>set out_paths. p \<notin> dirs (sample_world\<lparr>dirs := {''src-tauri/icons'', ''src-tauri''}\<rparr>)"
    by (simp add: out_paths_eq)
qed

lemma sample_wf: "wf_world sample_world"
  by (simp add: wf_world_def sample_world_def path_exists_def path_split_def)

lemma stale_makedirs: "makedirs out_dir_path stale_world = (None, stale_world)"
  by (simp add: out_dir_path_def makedirs_icons mkdir_icons path_exists_def stale_world_def)

lemma stale_done:
  assumes "src a = ''logo.png''"
  shows "main nn_pillow a stale_world
           = (Done, final_world nn_pillow a (sample_image\<lparr>mode := Mode_RGBA\<rparr>) stale_world)"
proof (rule main_Done [OF _ stale_makedirs])
  show "path_exists stale_world (src a)"
    using assms by (simp add: path_exists_def stale_world_def)
  show "src a \<notin> dirs stale_world"
    using assms by (simp add: stale_world_def)
  show "files stale_world (src a) = Some (PngData sample_image)"
    using assms by (simp add: stale_world_def)
  show "pil_decode_rgba nn_pillow (PngData sample_image) = Some (sample_image\<lparr>mode := Mode_RGBA\<rparr>)"
    by (simp add: nn_pillow_def)
  show "\<forall>p\<in>set out_paths. p \<notin> dirs stale_world"
    by (simp add: out_paths_eq stale_world_def)
qed

lemma composed_size [simp]:
  "width (composed P im) = base_size" "height (composed P im) = base_size"
  "mode (composed P im) = Mode_RGBA"
  by (simp_all add: composed_def pasted_def blank_def Let_def)

lemma resized_size [simp]:
  "width (resized P im sz) = fst sz" "height (resized P im sz) = snd sz"
  by (simp_all add: resized_def)

lemma masked_pos: "0 < r \<Longrightarrow> masked P im r = with_alpha im (corner_mask P (width im, height im) r)"
  by (simp add: masked_def)

lemma corner_radius_auto:
  assumes "radius a \<le> 0" and "s \<in> set SIZES"
  shows "corner_radius a s = int (s div 5)"
proof -
  from assms(2) consider "s = 32" | "s = 128" | "s = 256" | "s = 512" | "s = 1024"
    by (auto simp add: SIZES_def)
  then have "int_mul_0_2 s = int (s div 5)"
    by cases (simp_all add: int_mul_0_2_def round_to_53_def Let_def)
  with assms(1) show ?thesis
    by (simp add: corner_radius_def)
qed

lemma wide_thumbnail:
  "pil_thumbnail nn_pillow wide_image (1024, 1024)
     = \<lparr>mode = Mode_RGBA, width = 1024, height = 512, px = nn_sample wide_image (1024, 512)\<rparr>"
  by (simp add: nn_pillow_def nn_thumbnail_def nn_size_def wide_image_def blank_def)

section \<open>Claims\<close>

text \<open>
  C1. When the source path does not exist, the run prints the line
  \<^verbatim>\<open>Source not found: <path>\<close>, ends by \<^verbatim>\<open>sys.exit(1)\<close>, and leaves the files, the
  directories and the list of written paths as they were: only standard output changes.
\<close>

theorem missing_source_exit_1:
  assumes "\<not> path_exists w (src a)"
  shows "main P a w = (SysExit 1, w\<lparr>stdout := stdout w @ [''Source not found: '' @ src a]\<rparr>)
         \<and> exit_code (fst (main P a w)) = 1"
  using assms by (simp add: main_def print_def exit_code_def)

theorem missing_source_exit_1_witness:
  "\<not> path_exists sample_world ''./missing.png'' \<and>
   main nn_pillow \<lparr>src = ''./missing.png'', rounded = False, radius = 0\<rparr> sample_world
     = (SysExit 1, sample_world\<lparr>stdout := [''Source not found: ./missing.png'']\<rparr>) \<and>
   exit_code (fst (main nn_pillow \<lparr>src = ''./missing.png'', rounded = False, radius = 0\<rparr>
                     sample_world)) = 1"
proof -
  have h: "\<not> path_exists sample_world (src \<lparr>src = ''./missing.png'', rounded = False, radius = 0\<rparr>)"
    by (simp add: path_exists_def sample_world_def)
  have e: "stdout sample_world = []"
    by (simp add: sample_world_def)
  from missing_source_exit_1 [OF h, of nn_pillow] h e show ?thesis
    by (simp add: exit_code_def)
qed

text \<open>
  C2 (amended). With \<^verbatim>\<open>--rounded\<close> and \<^verbatim>\<open>--radius 0\<close> the radius at edge length \<open>s\<close> is
  \<^verbatim>\<open>int(s * 0.2)\<close>, the product truncated, which is \<open>s div 5\<close> at the five sizes: each
  sized file is the resized base with the mask of radius \<open>s div 5\<close> as its alpha band; the
  radius is 102 at 512 and 204 at 1024 (204 also for the base canvas).
\<close>

theorem auto_radius_truncates:
  assumes "fst (main P a w) = Done"
    and "files w (src a) = Some d" and "pil_decode_rgba P d = Some im"
    and "rounded a" and "radius a = 0"
  shows "(\<forall>s\<in>set SIZES.
            corner_radius a s = int (s div 5) \<and>
            files (snd (main P a w)) (sized_path out_dir_path s)
              = Some (PngData
                  (with_alpha
                     (resized P (with_alpha (composed P im) (corner_mask P (1024, 1024) 204))
                        (s, s))
                     (corner_mask P (s, s) (int (s div 5)))))) \<and>
         corner_radius a 512 = 102 \<and> corner_radius a 1024 = 204"
proof -
  from main_Done_eq [OF assms(1-3)]
  have e: "snd (main P a w) = final_world P a im (snd (makedirs out_dir_path w))"
    by simp
  have r: "corner_radius a s = int (s div 5)" if "s \<in> set SIZES" for s
    using assms(5) that by (simp add: corner_radius_auto)
  have pos: "0 < int (s div 5)" if "s \<in> set SIZES" for s
    using that by (auto simp add: SIZES_def)
  have "corner_radius a base_size = 204"
    using assms(5) by (simp add: corner_radius_def int_mul_0_2_base)
  then have b: "base_image P a im = with_alpha (composed P im) (corner_mask P (1024, 1024) 204)"
    using assms(4) by (simp add: base_image_def masked_pos) (simp add: base_size_def)
  have s: "sized_image P a base s
             = with_alpha (resized P base (s, s)) (corner_mask P (s, s) (int (s div 5)))"
    if "s \<in> set SIZES" for base s
    using assms(4) r [OF that] pos [OF that] by (simp add: sized_image_def masked_pos)
  have "(512::nat) \<in> set SIZES" "(1024::nat) \<in> set SIZES"
    by (simp_all add: SIZES_def)
  from r [OF this(1)] r [OF this(2)] have k: "corner_radius a 512 = 102" "corner_radius a 1024 = 204"
    by simp_all
  show ?thesis
    unfolding e by (simp add: final_files_sized b s r k)
qed

theorem auto_radius_truncates_witness:
  "corner_radius \<lparr>src = ''logo.png'', rounded = True, radius = 0\<rparr> 1024 = 204 \<and>
   files (snd (main nn_pillow \<lparr>src = ''logo.png'', rounded = True, radius = 0\<rparr> sample_world))
     (sized_path out_dir_path 1024)
     = Some (PngData
         (with_alpha
            (resized nn_pillow
               (with_alpha (composed nn_pillow (sample_image\<lparr>mode := Mode_RGBA\<rparr>))
                  (corner_mask nn_pillow (1024, 1024) 204)) (1024, 1024))
            (corner_mask nn_pillow (1024, 1024) 204)))"
proof -
  let ?a = "\<lparr>src = ''logo.png'', rounded = True, radius = 0\<rparr>"
  have d: "fst (main nn_pillow ?a sample_world) = Done"
    by (simp add: sample_done)
  have f: "files sample_world (src ?a) = Some (PngData sample_image)"
    by (simp add: sample_world_def)
  have p: "pil_decode_rgba nn_pillow (PngData sample_image) = Some (sample_image\<lparr>mode := Mode_RGBA\<rparr>)"
    by (simp add: nn_pillow_def)
  have r: "rounded ?a" "radius ?a = 0"
    by simp_all
  have m: "(1024::nat) \<in> set SIZES"
    by (simp add: SIZES_def)
  from auto_radius_truncates [OF d f p r] m show ?thesis
    by simp
qed

text \<open>
  The radius at 1024 is 204, whereas \<open>round (0.2 * 1024) = 205\<close>: truncation and rounding
  differ at 1024 (and at 128).
\<close>

theorem auto_radius_1024_is_not_round:
  "corner_radius \<lparr>src = ''logo.png'', rounded = True, radius = 0\<rparr> 1024
     \<noteq> round (0.2 * (1024::real))"
proof -
  have "int_mul_0_2 1024 = 204"
    by (simp add: int_mul_0_2_def round_to_53_def Let_def)
  moreover have "round (0.2 * (1024::real)) = 205"
    by (simp add: round_def)
  ultimately show ?thesis
    by (simp add: corner_radius_def)
qed

text \<open>
  C3. A successful run saves exactly six files, in this order and all inside
  \<^verbatim>\<open>src-tauri/icons\<close>: \<^verbatim>\<open>icon.png\<close> and one \<^verbatim>\<open>{s}x{s}.png\<close> per size; each holds a PNG
  afterwards, no other file changes, and the directories afterwards are those before
  together with \<^verbatim>\<open>src-tauri\<close> and \<^verbatim>\<open>src-tauri/icons\<close> (created when absent, kept when
  present).
\<close>

theorem six_png_files_written:
  assumes "fst (main P a w) = Done" and "wf_world w"
  shows "writes (snd (main P a w)) = writes w @
           [''src-tauri/icons/icon.png'', ''src-tauri/icons/32x32.png'',
            ''src-tauri/icons/128x128.png'', ''src-tauri/icons/256x256.png'',
            ''src-tauri/icons/512x512.png'', ''src-tauri/icons/1024x1024.png''] \<and>
         (\<forall>p\<in>set out_paths. \<exists>im. files (snd (main P a w)) p = Some (PngData im)) \<and>
         (\<forall>p. p \<notin> set out_paths \<longrightarrow> files (snd (main P a w)) p = files w p) \<and>
         dirs (snd (main P a w)) = dirs w \<union> {''src-tauri'', ''src-tauri/icons''} \<and>
         out_paths = map (path_join (path_join ''src-tauri'' ''icons''))
           [''icon.png'', ''32x32.png'', ''128x128.png'', ''256x256.png'', ''512x512.png'',
            ''1024x1024.png'']"
proof -
  from main_Done_conv [OF assms(1)] obtain w1 d im where
    mk: "makedirs out_dir_path w = (None, w1)" and
    f: "files w (src a) = Some d" "pil_decode_rgba P d = Some im"
    by blast
  from main_Done_eq [OF assms(1) f] mk
  have e: "snd (main P a w) = final_world P a im w1"
    by simp
  from makedirs_icons_wf [OF _ assms(2), of w1] mk
  have w1: "w1 = w\<lparr>dirs := insert ''src-tauri/icons'' (insert ''src-tauri'' (dirs w))\<rparr>"
    by (simp add: out_dir_path_def)
  have fw: "files w1 = files w"
    by (subst w1) simp
  have ww: "writes w1 = writes w"
    by (subst w1) simp
  have dw: "dirs w1 = dirs w \<union> {''src-tauri'', ''src-tauri/icons''}"
    by (subst w1) auto
  have a: "writes (snd (main P a w)) = writes w @
           [''src-tauri/icons/icon.png'', ''src-tauri/icons/32x32.png'',
            ''src-tauri/icons/128x128.png'', ''src-tauri/icons/256x256.png'',
            ''src-tauri/icons/512x512.png'', ''src-tauri/icons/1024x1024.png'']"
    unfolding e final_writes ww out_paths_eq by (rule refl)
  have b: "\<forall>p\<in>set out_paths. \<exists>im. files (snd (main P a w)) p = Some (PngData im)"
    unfolding e by (simp add: final_files out_paths_eq)
  have c: "\<forall>p. p \<notin> set out_paths \<longrightarrow> files (snd (main P a w)) p = files w p"
    unfolding e by (simp add: final_files_other fw)
  have d: "dirs (snd (main P a w)) = dirs w \<union> {''src-tauri'', ''src-tauri/icons''}"
    unfolding e final_dirs dw by (rule refl)
  have n: "out_paths = map (path_join (path_join ''src-tauri'' ''icons''))
           [''icon.png'', ''32x32.png'', ''128x128.png'', ''256x256.png'', ''512x512.png'',
            ''1024x1024.png'']"
    by (simp add: out_paths_eq path_join_def)
  from a b c d n show ?thesis by blast
qed

theorem six_png_files_written_witness:
  "fst (main nn_pillow \<lparr>src = ''logo.png'', rounded = False, radius = 0\<rparr> sample_world) = Done \<and>
   writes (snd (main nn_pillow \<lparr>src = ''logo.png'', rounded = False, radius = 0\<rparr> sample_world))
     = [''src-tauri/icons/icon.png'', ''src-tauri/icons/32x32.png'',
        ''src-tauri/icons/128x128.png'', ''src-tauri/icons/256x256.png'',
        ''src-tauri/icons/512x512.png'', ''src-tauri/icons/1024x1024.png''] \<and>
   dirs (snd (main nn_pillow \<lparr>src = ''logo.png'', rounded = False, radius = 0\<rparr> sample_world))
     = {''src-tauri'', ''src-tauri/icons''}"
proof -
  have d: "fst (main nn_pillow \<lparr>src = ''logo.png'', rounded = False, radius = 0\<rparr> sample_world) = Done"
    by (simp add: sample_done)
  have e: "writes sample_world = []" "dirs sample_world = {}"
    by (simp_all add: sample_world_def)
  from six_png_files_written [OF d sample_wf] d e show ?thesis
    by simp
qed

text \<open>
  C4. Centering (called by \<open>main\<close> on the freshly opened source): the canvas is a new
  1024 by 1024 RGBA object; the source object becomes its thumbnail, no larger than 1024
  by 1024 nor than the source, with the aspect ratio kept up to rounding, and unchanged
  when the source fits already; the paste offset is \<open>((1024 - w) div 2, (1024 - h) div 2)\<close>
  and keeps the thumbnail inside the canvas; every canvas pixel inside the box is the
  blend of the transparent pixel with the thumbnail pixel under the thumbnail's own alpha
  band, and every pixel outside the box is transparent. The behaviour of \<^verbatim>\<open>thumbnail\<close>
  itself is Pillow's and enters as \<open>thumbnail_contract\<close>.
\<close>

theorem canvas_centering:
  assumes "thumbnail_contract P" and "img < length h" and "mode (h ! img) = Mode_RGBA"
  shows "let t = pil_thumbnail P (h ! img) (1024, 1024);
             x = (1024 - int (width t)) div 2;
             y = (1024 - int (height t)) div 2;
             canvas = fst (center_on_canvas P img h);
             h' = snd (center_on_canvas P img h)
         in canvas = length h \<and> h' ! img = t \<and> h' ! canvas = composed P (h ! img) \<and>
            mode (h' ! canvas) = Mode_RGBA \<and>
            width (h' ! canvas) = 1024 \<and> height (h' ! canvas) = 1024 \<and>
            width t \<le> 1024 \<and> height t \<le> 1024 \<and>
            width t \<le> width (h ! img) \<and> height t \<le> height (h ! img) \<and>
            \<bar>int (width t) * int (height (h ! img)) - int (height t) * int (width (h ! img))\<bar>
              \<le> int (max (width (h ! img)) (height (h ! img))) \<and>
            0 \<le> x \<and> 0 \<le> y \<and> x + int (width t) \<le> 1024 \<and> y + int (height t) \<le> 1024 \<and>
            (\<forall>i j. px (h' ! canvas) i j =
               (if in_box (x, y) t i j
                then pil_blend P [0, 0, 0, 0]
                       (px t (nat (int i - x)) (nat (int j - y)))
                       (band (px t (nat (int i - x)) (nat (int j - y))) 3)
                else [0, 0, 0, 0])) \<and>
            (width (h ! img) \<le> 1024 \<and> height (h ! img) \<le> 1024 \<longrightarrow> t = h ! img)"
proof -
  define t where "t = pil_thumbnail P (h ! img) (1024, 1024)"
  define x where "x = (1024 - int (width t)) div 2"
  define y where "y = (1024 - int (height t)) div 2"
  from assms(1) have c:
    "mode t = mode (h ! img)" "width t \<le> min 1024 (width (h ! img))"
    "height t \<le> min 1024 (height (h ! img))"
    "width (h ! img) \<le> 1024 \<and> height (h ! img) \<le> 1024 \<longrightarrow> t = h ! img"
    "\<bar>int (width t) * int (height (h ! img)) - int (height t) * int (width (h ! img))\<bar>
       \<le> int (max (width (h ! img)) (height (h ! img)))"
    unfolding thumbnail_contract_def t_def by blast+
  have e: "center_on_canvas P img h = (length h, h[img := t] @ [composed P (h ! img)])"
    using assms(2) by (simp add: center_on_canvas_eq t_def base_size_def)
  have cv: "composed P (h ! img)
              = pasted P (blank Mode_RGBA (1024, 1024) [0, 0, 0, 0]) t (x, y) t"
    by (simp add: composed_def Let_def t_def x_def y_def base_size_def)
  have g: "(h[img := t] @ [composed P (h ! img)]) ! img = t"
    using assms(2) by (simp add: nth_append)
  have m: "mask_value t u v = band (px t u v) 3" for u v
    using c(1) assms(3) by (simp add: mask_value_def)
  have p: "px (composed P (h ! img)) i j =
             (if in_box (x, y) t i j
              then pil_blend P [0, 0, 0, 0]
                     (px t (nat (int i - x)) (nat (int j - y)))
                     (band (px t (nat (int i - x)) (nat (int j - y))) 3)
              else [0, 0, 0, 0])" for i j
    unfolding cv by (simp add: pasted_def blank_def m)
  have b: "0 \<le> x" "0 \<le> y" "x + int (width t) \<le> 1024" "y + int (height t) \<le> 1024"
    using c(2,3) unfolding x_def y_def by linarith+
  have cn: "(h[img := t] @ [composed P (h ! img)]) ! length h = composed P (h ! img)"
    by (simp add: nth_append)
  show ?thesis
    unfolding Let_def t_def [symmetric] x_def [symmetric] y_def [symmetric] e fst_conv snd_conv
      cn g
    using c b p by (simp add: base_size_def)
qed

theorem canvas_centering_witness:
  "mode wide_image = Mode_RGBA \<and>
   width wide_image = 2000 \<and> height wide_image = 1000 \<and>
   fst (center_on_canvas nn_pillow 0 [wide_image]) = 1 \<and>
   width (snd (center_on_canvas nn_pillow 0 [wide_image]) ! 0) = 1024 \<and>
   height (snd (center_on_canvas nn_pillow 0 [wide_image]) ! 0) = 512 \<and>
   width (snd (center_on_canvas nn_pillow 0 [wide_image]) ! 1) = 1024 \<and>
   height (snd (center_on_canvas nn_pillow 0 [wide_image]) ! 1) = 1024 \<and>
   px (snd (center_on_canvas nn_pillow 0 [wide_image]) ! 1) 0 255 = [0, 0, 0, 0] \<and>
   px (snd (center_on_canvas nn_pillow 0 [wide_image]) ! 1) 0 256 = [0, 0, 255, 255] \<and>
   px (snd (center_on_canvas nn_pillow 0 [wide_image]) ! 1) 1023 767 = [0, 0, 255, 255] \<and>
   px (snd (center_on_canvas nn_pillow 0 [wide_image]) ! 1) 1023 768 = [0, 0, 0, 0]"
proof -
  have a: "0 < length [wide_image]" "mode ([wide_image] ! 0) = Mode_RGBA"
    by (simp_all add: wide_image_def blank_def)
  have w: "mode wide_image = Mode_RGBA" "width wide_image = 2000" "height wide_image = 1000"
    "px wide_image u v = [0, 0, 255, 255]" for u v
    by (simp_all add: wide_image_def blank_def)
  have b: "pil_blend nn_pillow d s 255 = s" for d s
    by (simp add: nn_pillow_def)
  let ?c = "center_on_canvas nn_pillow 0 [wide_image]"
  let ?t = "\<lparr>mode = Mode_RGBA, width = 1024, height = 512, px = nn_sample wide_image (1024, 512)\<rparr>"
  from canvas_centering [OF nn_thumbnail_contract a]
  have k: "fst ?c = 1 \<and> snd ?c ! 0 = ?t \<and>
           width (snd ?c ! fst ?c) = 1024 \<and> height (snd ?c ! fst ?c) = 1024 \<and>
           (\<forall>i j. px (snd ?c ! fst ?c) i j =
              (if i < 1024 \<and> 256 \<le> j \<and> j < 768 then [0, 0, 255, 255] else [0, 0, 0, 0]))"
    by (auto simp add: Let_def wide_thumbnail in_box_def nn_sample_def w band_def b cong: if_cong)
  then have f: "fst ?c = 1" and z: "snd ?c ! 0 = ?t"
    by simp_all
  from k [unfolded f] have g: "width (snd ?c ! 1) = 1024" "height (snd ?c ! 1) = 1024"
    and p: "\<forall>i j. px (snd ?c ! 1) i j =
             (if i < 1024 \<and> 256 \<le> j \<and> j < 768 then [0, 0, 255, 255] else [0, 0, 0, 0])"
    by blast+
  from p have q: "px (snd ?c ! 1) 0 255 = [0, 0, 0, 0]" "px (snd ?c ! 1) 0 256 = [0, 0, 255, 255]"
    "px (snd ?c ! 1) 1023 767 = [0, 0, 255, 255]" "px (snd ?c ! 1) 1023 768 = [0, 0, 0, 0]"
    by simp_all
  from z have "width (snd ?c ! 0) = 1024" "height (snd ?c ! 0) = 512"
    by simp_all
  with f g q w(1-3) show ?thesis
    by simp
qed

text \<open>
  C5. With \<^verbatim>\<open>--rounded\<close> and a positive \<^verbatim>\<open>--radius r\<close>, \<open>r\<close> itself is the radius at every
  size: \<^verbatim>\<open>icon.png\<close> is the canvas with the mask of radius \<open>r\<close> as alpha, and each sized
  file is the resized base with the mask of the same radius \<open>r\<close> at its own size.
\<close>

theorem explicit_radius_verbatim:
  assumes "fst (main P a w) = Done"
    and "files w (src a) = Some d" and "pil_decode_rgba P d = Some im"
    and "rounded a" and "0 < radius a"
  shows "files (snd (main P a w)) ''src-tauri/icons/icon.png''
           = Some (PngData (with_alpha (composed P im)
                              (corner_mask P (1024, 1024) (radius a)))) \<and>
         (\<forall>s\<in>set SIZES.
            files (snd (main P a w)) (sized_path out_dir_path s)
              = Some (PngData
                  (with_alpha
                     (resized P (with_alpha (composed P im)
                                   (corner_mask P (1024, 1024) (radius a))) (s, s))
                     (corner_mask P (s, s) (radius a))))) \<and>
         (\<forall>s. corner_radius a s = radius a)"
proof -
  from main_Done_eq [OF assms(1-3)]
  have e: "snd (main P a w) = final_world P a im (snd (makedirs out_dir_path w))"
    by simp
  have r: "corner_radius a s = radius a" for s
    using assms(5) by (simp add: corner_radius_def)
  have b: "base_image P a im = with_alpha (composed P im) (corner_mask P (1024, 1024) (radius a))"
    using assms(4,5) by (simp add: base_image_def r masked_pos base_size_def)
  have s: "sized_image P a base s
             = with_alpha (resized P base (s, s)) (corner_mask P (s, s) (radius a))" for base s
    using assms(4,5) by (simp add: sized_image_def r masked_pos)
  show ?thesis
    unfolding e by (simp add: final_files_icon final_files_sized b s r)
qed

theorem explicit_radius_verbatim_witness:
  "0 < radius \<lparr>src = ''logo.png'', rounded = True, radius = 100\<rparr> \<and>
   files (snd (main nn_pillow \<lparr>src = ''logo.png'', rounded = True, radius = 100\<rparr> sample_world))
     (sized_path out_dir_path 32)
     = Some (PngData
         (with_alpha
            (resized nn_pillow
               (with_alpha (composed nn_pillow (sample_image\<lparr>mode := Mode_RGBA\<rparr>))
                  (corner_mask nn_pillow (1024, 1024) 100)) (32, 32))
            (corner_mask nn_pillow (32, 32) 100)))"
proof -
  let ?a = "\<lparr>src = ''logo.png'', rounded = True, radius = 100\<rparr>"
  have d: "fst (main nn_pillow ?a sample_world) = Done"
    by (simp add: sample_done)
  have f: "files sample_world (src ?a) = Some (PngData sample_image)"
    by (simp add: sample_world_def)
  have p: "pil_decode_rgba nn_pillow (PngData sample_image) = Some (sample_image\<lparr>mode := Mode_RGBA\<rparr>)"
    by (simp add: nn_pillow_def)
  have r: "rounded ?a" "0 < radius ?a"
    by simp_all
  have m: "(32::nat) \<in> set SIZES"
    by (simp add: SIZES_def)
  from explicit_radius_verbatim [OF d f p r] m show ?thesis
    by simp
qed

text \<open>
  C6. For a positive radius \<^verbatim>\<open>apply_rounded\<close> returns a newly allocated object; every object
  that existed before the call, the input among them, is unchanged; the result has the
  mode and size of the input, and each of its pixels is the input pixel with band 3
  overwritten by the mask value (255 inside the rounded rectangle, 0 outside), whatever
  the alpha was before.
\<close>

theorem apply_rounded_fresh_copy:
  assumes "0 < r" and "im < length h"
  shows "\<exists>out h'. apply_rounded P im r h = (out, h') \<and>
           length h \<le> out \<and> out < length h' \<and>
           (\<forall>i<length h. h' ! i = h ! i) \<and>
           mode (h' ! out) = mode (h ! im) \<and>
           width (h' ! out) = width (h ! im) \<and> height (h' ! out) = height (h ! im) \<and>
           (\<forall>x y. px (h' ! out) x y =
              (px (h ! im) x y)
                [3 := (if pil_rounded_rect P (0, 0, int (width (h ! im)), int (height (h ! im))) r x y
                       then 255 else 0)])"
proof -
  let ?m = "corner_mask P (width (h ! im), height (h ! im)) r"
  let ?h' = "h @ [?m, masked P (h ! im) r]"
  have e: "apply_rounded P im r h = (Suc (length h), ?h')"
    using assms by (rule apply_rounded_pos)
  have o: "?h' ! Suc (length h) = with_alpha (h ! im) ?m"
    using assms(1) by (simp add: nth_append masked_def)
  have k: "\<forall>i<length h. ?h' ! i = h ! i"
    by (simp add: nth_append)
  have p: "px (with_alpha (h ! im) ?m) x y =
              (px (h ! im) x y)
                [3 := (if pil_rounded_rect P (0, 0, int (width (h ! im)), int (height (h ! im))) r x y
                       then 255 else 0)]" for x y
    by (simp add: with_alpha_def corner_mask_def drawn_rounded_def blank_def band_def)
  have s: "mode (with_alpha (h ! im) ?m) = mode (h ! im)"
    "width (with_alpha (h ! im) ?m) = width (h ! im)"
    "height (with_alpha (h ! im) ?m) = height (h ! im)"
    by (simp_all add: with_alpha_def)
  show ?thesis
    unfolding e using k by (intro exI conjI) (rule refl, simp_all only: o p s, simp_all)
qed

theorem apply_rounded_fresh_copy_witness:
  "\<exists>out h'. apply_rounded nn_pillow 0 1 [clear_image] = (out, h') \<and>
      1 \<le> out \<and> h' ! 0 = clear_image \<and> width (h' ! out) = 2 \<and> height (h' ! out) = 2 \<and>
      px clear_image 1 1 = [255, 0, 0, 0] \<and>
      px (h' ! out) 1 1 = [255, 0, 0, 255] \<and> px (h' ! out) 0 0 = [255, 0, 0, 0]"
proof -
  have a: "(0::int) < 1" "0 < length [clear_image]"
    by simp_all
  from apply_rounded_fresh_copy [OF a, of nn_pillow] obtain out h' where
    r: "apply_rounded nn_pillow 0 1 [clear_image] = (out, h')" "length [clear_image] \<le> out"
       "\<forall>i<length [clear_image]. h' ! i = [clear_image] ! i"
       "width (h' ! out) = width ([clear_image] ! 0)" "height (h' ! out) = height ([clear_image] ! 0)"
       "\<forall>x y. px (h' ! out) x y =
              (px ([clear_image] ! 0) x y)
                [3 := (if pil_rounded_rect nn_pillow
                          (0, 0, int (width ([clear_image] ! 0)), int (height ([clear_image] ! 0))) 1 x y
                       then 255 else 0)]"
    by blast
  have c: "width clear_image = 2" "height clear_image = 2" "px clear_image x y = [255, 0, 0, 0]" for x y
    by (simp_all add: clear_image_def blank_def)
  from r(6) have "px (h' ! out) 1 1 = [255, 0, 0, 255]" "px (h' ! out) 0 0 = [255, 0, 0, 0]"
    by (simp_all add: c nn_pillow_def)
  with r(1-5) c show ?thesis
    by simp
qed

text \<open>
  C7. After a successful run, for each \<open>s\<close> in \<^verbatim>\<open>SIZES\<close> the file \<^verbatim>\<open>{s}x{s}.png\<close> in the
  output directory holds an image of width \<open>s\<close> and height \<open>s\<close>.
\<close>

theorem sized_outputs_square:
  assumes "fst (main P a w) = Done"
  shows "\<forall>s\<in>set SIZES. \<exists>im.
           files (snd (main P a w)) (sized_path out_dir_path s) = Some (PngData im) \<and>
           width im = s \<and> height im = s"
proof -
  from main_Done_conv [OF assms] obtain d im where
    "files w (src a) = Some d" "pil_decode_rgba P d = Some im"
    by blast
  from main_Done_eq [OF assms this]
  have "snd (main P a w) = final_world P a im (snd (makedirs out_dir_path w))"
    by simp
  then show ?thesis
    by (simp add: final_files_sized)
qed

theorem sized_outputs_square_witness:
  "fst (main nn_pillow \<lparr>src = ''logo.png'', rounded = True, radius = 0\<rparr> sample_world) = Done \<and>
   (\<exists>im.
      files (snd (main nn_pillow \<lparr>src = ''logo.png'', rounded = True, radius = 0\<rparr> sample_world))
        ''src-tauri/icons/512x512.png'' = Some (PngData im) \<and>
      width im = 512 \<and> height im = 512)"
proof -
  have d: "fst (main nn_pillow \<lparr>src = ''logo.png'', rounded = True, radius = 0\<rparr> sample_world) = Done"
    by (simp add: sample_done)
  have m: "(512::nat) \<in> set SIZES"
    by (simp add: SIZES_def)
  from sized_outputs_square [OF d] m d show ?thesis
    unfolding sized_paths_eq [symmetric] by blast
qed

text \<open>
  C8. Two successful runs with the same library, the same arguments and the same content
  of the source file leave the same content in each of the six output files, whatever
  else the two worlds held before, prior outputs included.
\<close>

theorem runs_deterministic:
  assumes "fst (main P a w1) = Done" and "fst (main P a w2) = Done"
    and "files w1 (src a) = files w2 (src a)"
  shows "\<forall>p\<in>set out_paths. files (snd (main P a w1)) p = files (snd (main P a w2)) p"
proof -
  from main_Done_conv [OF assms(1)] obtain d im where
    f1: "files w1 (src a) = Some d" "pil_decode_rgba P d = Some im"
    by blast
  with assms(3) have f2: "files w2 (src a) = Some d"
    by simp
  from main_Done_eq [OF assms(1) f1]
  have e1: "snd (main P a w1) = final_world P a im (snd (makedirs out_dir_path w1))"
    by simp
  from main_Done_eq [OF assms(2) f2 f1(2)]
  have e2: "snd (main P a w2) = final_world P a im (snd (makedirs out_dir_path w2))"
    by simp
  show ?thesis
    unfolding e1 e2 by (simp add: final_files out_paths_eq)
qed

theorem runs_deterministic_witness:
  "fst (main nn_pillow \<lparr>src = ''logo.png'', rounded = True, radius = 0\<rparr> sample_world) = Done \<and>
   fst (main nn_pillow \<lparr>src = ''logo.png'', rounded = True, radius = 0\<rparr> stale_world) = Done \<and>
   files sample_world ''logo.png'' = files stale_world ''logo.png'' \<and>
   files sample_world ''src-tauri/icons/icon.png'' = None \<and>
   files stale_world ''src-tauri/icons/icon.png'' = Some (Bytes [1, 2, 3]) \<and>
   files (snd (main nn_pillow \<lparr>src = ''logo.png'', rounded = True, radius = 0\<rparr> sample_world))
     ''src-tauri/icons/icon.png''
   = files (snd (main nn_pillow \<lparr>src = ''logo.png'', rounded = True, radius = 0\<rparr> stale_world))
       ''src-tauri/icons/icon.png''"
proof -
  let ?a = "\<lparr>src = ''logo.png'', rounded = True, radius = 0\<rparr>"
  have d1: "fst (main nn_pillow ?a sample_world) = Done"
    by (simp add: sample_done)
  have d2: "fst (main nn_pillow ?a stale_world) = Done"
    by (simp add: stale_done)
  have f: "files sample_world (src ?a) = files stale_world (src ?a)"
    by (simp add: sample_world_def stale_world_def)
  have g: "files stale_world ''src-tauri/icons/icon.png'' = Some (Bytes [1, 2, 3])"
    "files sample_world ''src-tauri/icons/icon.png'' = None"
    by (simp_all add: stale_world_def sample_world_def)
  have m: "''src-tauri/icons/icon.png'' \<in> set out_paths"
    by (simp add: out_paths_eq)
  from runs_deterministic [OF d1 d2 f] m d1 d2 f g show ?thesis
    by simp
qed

text \<open>
  C9. With \<^verbatim>\<open>--rounded\<close> and a negative \<^verbatim>\<open>--radius\<close>, the run is the run with radius 0: the
  radius at every size is the derived \<^verbatim>\<open>int(s * 0.2)\<close>; and \<^verbatim>\<open>apply_rounded\<close> returns the
  object it was given, with the store untouched, whenever its radius is not positive.
\<close>

theorem negative_radius_as_zero:
  assumes "rounded a" and "radius a < 0"
  shows "main P a w = main P (a\<lparr>radius := 0\<rparr>) w \<and>
         (\<forall>s. corner_radius a s = int_mul_0_2 s) \<and>
         (\<forall>r im h. r \<le> 0 \<longrightarrow> apply_rounded P im r h = (im, h))"
proof (intro conjI)
  show "main P a w = main P (a\<lparr>radius := 0\<rparr>) w"
    using assms by (intro main_args_cong) (simp_all add: corner_radius_def)
  show "\<forall>s. corner_radius a s = int_mul_0_2 s"
    using assms by (simp add: corner_radius_def)
  show "\<forall>r im h. r \<le> 0 \<longrightarrow> apply_rounded P im r h = (im, h)"
    by (simp add: apply_rounded_def)
qed

theorem negative_radius_as_zero_witness:
  "main nn_pillow \<lparr>src = ''logo.png'', rounded = True, radius = - 5\<rparr> sample_world
     = main nn_pillow \<lparr>src = ''logo.png'', rounded = True, radius = 0\<rparr> sample_world \<and>
   corner_radius \<lparr>src = ''logo.png'', rounded = True, radius = - 5\<rparr> 512 = int_mul_0_2 512 \<and>
   apply_rounded nn_pillow 0 (- 5) [sample_image] = (0, [sample_image])"
  using negative_radius_as_zero
    [of "\<lparr>src = ''logo.png'', rounded = True, radius = - 5\<rparr>" nn_pillow sample_world]
  by simp

text \<open>
  C10. Without \<^verbatim>\<open>--rounded\<close> the value of \<^verbatim>\<open>--radius\<close> does not matter: two runs that differ
  only in it end the same way and leave the same world, so all six files agree.
\<close>

theorem radius_ignored_without_rounded:
  assumes "\<not> rounded a"
  shows "main P (a\<lparr>radius := r1\<rparr>) w = main P (a\<lparr>radius := r2\<rparr>) w"
  using assms by (intro main_args_cong) simp_all

theorem radius_ignored_without_rounded_witness:
  "main nn_pillow \<lparr>src = ''logo.png'', rounded = False, radius = 100\<rparr> sample_world
     = main nn_pillow \<lparr>src = ''logo.png'', rounded = False, radius = 7\<rparr> sample_world"
  using radius_ignored_without_rounded
    [of "\<lparr>src = ''logo.png'', rounded = False, radius = 0\<rparr>" nn_pillow 100 sample_world 7]
  by simp

end
